theory Spec2Isabelle
  imports Main "HOL-Library.AList"
begin

section \<open>The pointer-helper generator of smithy-go (ptr/generate.go)\<close>

text \<open>
  The program is a Go generator: a catalogue of scalar types is rendered through a set of
  text templates into two source files, \<^verbatim>\<open>to_ptr.go\<close> and \<^verbatim>\<open>from_ptr.go\<close>.
  The first part of this theory embeds the generator (the types \<^verbatim>\<open>Import\<close>,
  \<^verbatim>\<open>Scalar\<close>, \<^verbatim>\<open>Scalars\<close>, the templates, \<^verbatim>\<open>generateFile\<close> and \<^verbatim>\<open>main\<close>);
  the second part embeds the Go functions that the templates contain, over an explicit
  store, since they take addresses of variables.

  Go strings are byte strings: \<^typ>\<open>string\<close>.
\<close>

subsection \<open>The library functions the generator calls\<close>

text \<open>
  \<^verbatim>\<open>strings.Split(s, sep)\<close>, for the one-byte separator the generator uses: the
  substrings between the separators, in order. The result always has one element more than
  there are separators in \<open>s\<close>; for the empty string it is the list of the empty string.
\<close>

fun Split :: "string \<Rightarrow> char \<Rightarrow> string list" where
  "Split [] sep = [[]]"
| "Split (c # s) sep =
     (if c = sep then [] # Split s sep
      else (case Split s sep of
              [] \<Rightarrow> [[c]]
            | p # ps \<Rightarrow> (c # p) # ps))"

text \<open>
  \<^verbatim>\<open>strings.Title(s)\<close>: every letter that begins a word is mapped to its title
  case. The library keeps the previous rune in \<^verbatim>\<open>prev\<close>, initially a space, and
  maps a rune through \<^verbatim>\<open>unicode.ToTitle\<close> when \<^verbatim>\<open>isSeparator(prev)\<close>. On
  ASCII, \<^verbatim>\<open>isSeparator\<close> is false exactly for letters, digits and the underscore,
  and \<^verbatim>\<open>ToTitle\<close> maps a lower-case letter to its upper-case letter and nothing else.

  The embedding is exact on ASCII strings. Bytes above 0x7F belong to multi-byte runes whose
  classification lives in the Unicode tables; the embedding leaves them unchanged and does
  not count them as separators, and no statement below is about them.
\<close>

definition rune :: "char \<Rightarrow> nat" where
  "rune r = of_char r"

definition isLower :: "char \<Rightarrow> bool" where
  "isLower r = (rune (CHR ''a'') \<le> rune r \<and> rune r \<le> rune (CHR ''z''))"

definition isUpper :: "char \<Rightarrow> bool" where
  "isUpper r = (rune (CHR ''A'') \<le> rune r \<and> rune r \<le> rune (CHR ''Z''))"

definition isDigit :: "char \<Rightarrow> bool" where
  "isDigit r = (rune (CHR ''0'') \<le> rune r \<and> rune r \<le> rune (CHR ''9''))"

definition isSeparator :: "char \<Rightarrow> bool" where
  "isSeparator r =
     (if rune r \<le> 0x7F then
        (if isDigit r then False
         else if isLower r then False
         else if isUpper r then False
         else if r = CHR ''_'' then False
         else True)
      else False)"

definition ToTitle :: "char \<Rightarrow> char" where
  "ToTitle r = (if isLower r then char_of (rune r - 32) else r)"

fun Title_from :: "char \<Rightarrow> string \<Rightarrow> string" where
  "Title_from prev [] = []"
| "Title_from prev (r # s) =
     (if isSeparator prev then ToTitle r else r) # Title_from r s"

definition Title :: "string \<Rightarrow> string" where
  "Title s = Title_from (CHR '' '') s"

text \<open>
  The characters of one word: the ASCII letters, digits and the underscore, which are the
  runes that \<^verbatim>\<open>isSeparator\<close> excludes first.
\<close>

definition isWordChar :: "char \<Rightarrow> bool" where
  "isWordChar c = (isDigit c \<or> isLower c \<or> isUpper c \<or> c = CHR ''_'')"

subsection \<open>Import and Scalar\<close>

text \<open>
  \<^verbatim>\<open>type Import struct { Path string; Alias string }\<close>. A scalar holds a pointer to
  its import, nil for a built-in type: an optional record.
\<close>

record Import =
  Path :: string
  Alias :: string

text \<open>
  \<^verbatim>\<open>func (i Import) Package() string\<close>. The index \<^verbatim>\<open>len(parts)-1\<close> is in range
  because \<^const>\<open>Split\<close> never returns the empty list (lemma \<open>Split_not_Nil\<close>).
\<close>

definition Package :: "Import \<Rightarrow> string" where
  "Package i =
     (if length (Alias i) \<noteq> 0 then Alias i
      else if length (Path i) \<noteq> 0 then
        (let parts = Split (Path i) (CHR ''/'');
             pkg = parts ! (length parts - 1)
         in pkg)
      else [])"

record Scalar =
  Type :: string
  Import :: "Import option"

definition Name :: "Scalar \<Rightarrow> string" where
  "Name t = Title (Type t)"

definition Symbol :: "Scalar \<Rightarrow> string" where
  "Symbol t =
     (case Import t of
        Some i \<Rightarrow> Package i @ ''.'' @ Type t
      | None \<Rightarrow> Type t)"

type_synonym Scalars = "Scalar list"

text \<open>
  \<^verbatim>\<open>func (ts Scalars) Imports() []*Import\<close>: the loop appends the import of every
  scalar that has one to the slice built so far.
\<close>

fun Imports_loop :: "Scalars \<Rightarrow> Import list \<Rightarrow> Import list" where
  "Imports_loop [] imports = imports"
| "Imports_loop (t # ts) imports =
     (case Import t of
        Some v \<Rightarrow> Imports_loop ts (imports @ [v])
      | None \<Rightarrow> Imports_loop ts imports)"

definition Imports :: "Scalars \<Rightarrow> Import list" where
  "Imports ts = Imports_loop ts []"

subsection \<open>The templates\<close>

text \<open>
  Each \<^verbatim>\<open>define\<close> block of \<^verbatim>\<open>ptrTmpl\<close> is a function from its argument to the
  text it writes. A \<^verbatim>\<open>{{-\<close> removes the white space before the action, so the line
  break that precedes every \<^verbatim>\<open>{{- end }}\<close>, \<^verbatim>\<open>{{- range\<close> and
  \<^verbatim>\<open>{{- define\<close> is not part of the output; all other white space is.
\<close>

definition nl :: string where
  "nl = [CHR 0x0A]"

definition tab :: string where
  "tab = [CHR 0x09]"

definition dq :: string where
  "dq = [CHR 0x22]"

definition import_line :: "Import \<Rightarrow> string" where
  "import_line i = nl @ tab @ tab @ tab @ dq @ Path i @ dq"

definition header :: "Scalars \<Rightarrow> string" where
  "header ts =
     nl @ tab @ ''// Code generated by smithy-go/ptr/generate.go DO NOT EDIT.''
     @ nl @ tab @ ''package ptr''
     @ nl
     @ nl @ tab @ ''import (''
     @ concat (map import_line (Imports ts))
     @ nl @ tab @ '')''"

definition to_pointer_func :: "Scalar \<Rightarrow> string" where
  "to_pointer_func t =
     nl @ tab @ ''// '' @ Name t @ '' returns a pointer value for the '' @ Symbol t
       @ '' value passed in.''
     @ nl @ tab @ ''func '' @ Name t @ ''(v '' @ Symbol t @ '') *'' @ Symbol t @ '' {''
     @ nl @ tab @ tab @ ''return &v''
     @ nl @ tab @ ''}''"

definition to_pointers_func :: "Scalar \<Rightarrow> string" where
  "to_pointers_func t =
     nl @ tab @ ''// '' @ Name t @ ''Slice returns a slice of '' @ Symbol t
       @ '' pointers from the values''
     @ nl @ tab @ ''// passed in.''
     @ nl @ tab @ ''func '' @ Name t @ ''Slice(vs []'' @ Symbol t @ '') []*'' @ Symbol t @ '' {''
     @ nl @ tab @ tab @ ''ps := make([]*'' @ Symbol t @ '', len(vs))''
     @ nl @ tab @ tab @ ''for i, v := range vs {''
     @ nl @ tab @ tab @ tab @ ''ps[i] = &v''
     @ nl @ tab @ tab @ ''}''
     @ nl
     @ nl @ tab @ tab @ ''return ps''
     @ nl @ tab @ ''}''
     @ nl
     @ nl @ tab @ ''// '' @ Name t @ ''Map returns a map of '' @ Symbol t
       @ '' pointers from the values''
     @ nl @ tab @ ''// passed in.''
     @ nl @ tab @ ''func '' @ Name t @ ''Map(vs map[string]'' @ Symbol t @ '') map[string]*''
       @ Symbol t @ '' {''
     @ nl @ tab @ tab @ ''ps := make(map[string]*'' @ Symbol t @ '', len(vs))''
     @ nl @ tab @ tab @ ''for k, v := range vs {''
     @ nl @ tab @ tab @ tab @ ''ps[k] = &v''
     @ nl @ tab @ tab @ ''}''
     @ nl
     @ nl @ tab @ tab @ ''return ps''
     @ nl @ tab @ ''}''"

definition from_pointer_func :: "Scalar \<Rightarrow> string" where
  "from_pointer_func t =
     nl @ tab @ ''// To'' @ Name t @ '' returns '' @ Symbol t
       @ '' value dereferenced if the passed''
     @ nl @ tab @ ''// in pointer was not nil. Returns a '' @ Symbol t @ '' zero value if the''
     @ nl @ tab @ ''// pointer was nil.''
     @ nl @ tab @ ''func To'' @ Name t @ ''(p *'' @ Symbol t @ '') (v '' @ Symbol t @ '') {''
     @ nl @ tab @ tab @ ''if p == nil {''
     @ nl @ tab @ tab @ tab @ ''return v''
     @ nl @ tab @ tab @ ''}''
     @ nl @ tab @ tab @ tab
     @ nl @ tab @ tab @ ''return *p''
     @ nl @ tab @ ''}''"

definition from_pointers_func :: "Scalar \<Rightarrow> string" where
  "from_pointers_func t =
     nl @ tab @ ''// To'' @ Name t @ ''Slice returns a slice of '' @ Symbol t
       @ '' values, that are''
     @ nl @ tab @ ''// dereferenced if the passed in pointer was not nil. Returns a ''
       @ Symbol t
     @ nl @ tab @ ''// zero value if the pointer was nil.''
     @ nl @ tab @ ''func To'' @ Name t @ ''Slice(vs []*'' @ Symbol t @ '') []'' @ Symbol t @ '' {''
     @ nl @ tab @ tab @ ''ps := make([]'' @ Symbol t @ '', len(vs))''
     @ nl @ tab @ tab @ ''for i, v := range vs {''
     @ nl @ tab @ tab @ tab @ ''ps[i] = To'' @ Name t @ ''(v)''
     @ nl @ tab @ tab @ ''}''
     @ nl
     @ nl @ tab @ tab @ ''return ps''
     @ nl @ tab @ ''}''
     @ nl
     @ nl @ tab @ ''// To'' @ Name t @ ''Map returns a map of '' @ Symbol t
       @ '' values, that are''
     @ nl @ tab @ ''// dereferenced if the passed in pointer was not nil. The '' @ Symbol t
     @ nl @ tab @ ''// zero value is used if the pointer was nil.''
     @ nl @ tab @ ''func To'' @ Name t @ ''Map(vs map[string]*'' @ Symbol t @ '') map[string]''
       @ Symbol t @ '' {''
     @ nl @ tab @ tab @ ''ps := make(map[string]'' @ Symbol t @ '', len(vs))''
     @ nl @ tab @ tab @ ''for k, v := range vs {''
     @ nl @ tab @ tab @ tab @ ''ps[k] = To'' @ Name t @ ''(v)''
     @ nl @ tab @ tab @ ''}''
     @ nl
     @ nl @ tab @ tab @ ''return ps''
     @ nl @ tab @ ''}''"

definition scalar_from_pointer :: "Scalars \<Rightarrow> string" where
  "scalar_from_pointer ts =
     nl @ tab @ header ts
     @ nl
     @ nl @ tab
     @ concat (map (\<lambda>t. nl @ tab @ tab @ from_pointer_func t
                       @ nl @ tab @ tab @ from_pointers_func t) ts)"

definition scalar_to_pointer :: "Scalars \<Rightarrow> string" where
  "scalar_to_pointer ts =
     nl @ tab @ header ts
     @ nl
     @ nl @ tab
     @ concat (map (\<lambda>t. nl @ tab @ tab @ to_pointer_func t
                       @ nl @ tab @ tab @ to_pointers_func t) ts)"

text \<open>
  \<^verbatim>\<open>ptrTmpl.ExecuteTemplate(f, tmplName, types)\<close>: the text written to \<open>f\<close> and the
  error, if any. The data is always the catalogue. A name that is not defined writes nothing
  and fails; the four function templates expect one scalar, so on the catalogue they fail
  at their first action, \<^verbatim>\<open>{{ $.Name }}\<close>, after the text before it has been written;
  the top-level template holds only the line break after the last definition.
\<close>

datatype exec_error = NoTemplate string | CantEvaluateField string

definition ExecuteTemplate :: "string \<Rightarrow> Scalars \<Rightarrow> string \<times> exec_error option" where
  "ExecuteTemplate tmplName ts =
     (if tmplName = ''header'' then (header ts, None)
      else if tmplName = ''scalar from pointer'' then (scalar_from_pointer ts, None)
      else if tmplName = ''scalar to pointer'' then (scalar_to_pointer ts, None)
      else if tmplName = ''to pointer func'' \<or> tmplName = ''to pointers func''
        then (nl @ tab @ ''// '', Some (CantEvaluateField ''Name''))
      else if tmplName = ''from pointer func'' \<or> tmplName = ''from pointers func''
        then (nl @ tab @ ''// To'', Some (CantEvaluateField ''Name''))
      else if tmplName = ''ptrTmpl'' then (nl, None)
      else ([], Some (NoTemplate tmplName)))"

subsection \<open>generateFile and main\<close>

text \<open>
  The file system is the part of the environment the generator acts on: the contents of the
  files by name, and the names that \<^verbatim>\<open>os.Create\<close> refuses. \<^verbatim>\<open>os.Create\<close>
  truncates or creates the file; the template then writes to it, unbuffered, so the text
  written before a rendering error stays in the file. Writing to a created file is taken to
  succeed, and closing it leaves the contents as they are.
\<close>

record filesystem =
  files :: "string \<rightharpoonup> string"
  denied :: "string \<Rightarrow> bool"

datatype gen_error =
  FailedToCreate string
| FailedToGenerate string exec_error

definition os_Create :: "filesystem \<Rightarrow> string \<Rightarrow> filesystem option" where
  "os_Create fs filename =
     (if denied fs filename then None
      else Some (fs\<lparr>files := (files fs)(filename \<mapsto> [])\<rparr>))"

definition Write :: "filesystem \<Rightarrow> string \<Rightarrow> string \<Rightarrow> filesystem" where
  "Write fs filename text =
     fs\<lparr>files := (files fs)(filename \<mapsto> (case files fs filename of
                                              None \<Rightarrow> text
                                            | Some old \<Rightarrow> old @ text))\<rparr>"

definition generateFile ::
  "filesystem \<Rightarrow> string \<Rightarrow> string \<Rightarrow> Scalars \<Rightarrow> gen_error option \<times> filesystem" where
  "generateFile fs filename tmplName ts =
     (case os_Create fs filename of
        None \<Rightarrow> (Some (FailedToCreate filename), fs)
      | Some f \<Rightarrow>
          (case ExecuteTemplate tmplName ts of
             (text, Some err) \<Rightarrow> (Some (FailedToGenerate filename err), Write f filename text)
           | (text, None) \<Rightarrow> (None, Write f filename text)))"

text \<open>The catalogue that \<^verbatim>\<open>main\<close> builds.\<close>

definition types :: Scalars where
  "types =
     [\<lparr>Type = ''string'', Import = None\<rparr>,
      \<lparr>Type = ''int'', Import = None\<rparr>,
      \<lparr>Type = ''int8'', Import = None\<rparr>,
      \<lparr>Type = ''int16'', Import = None\<rparr>,
      \<lparr>Type = ''int32'', Import = None\<rparr>,
      \<lparr>Type = ''int64'', Import = None\<rparr>,
      \<lparr>Type = ''uint'', Import = None\<rparr>,
      \<lparr>Type = ''uint8'', Import = None\<rparr>,
      \<lparr>Type = ''uint16'', Import = None\<rparr>,
      \<lparr>Type = ''uint32'', Import = None\<rparr>,
      \<lparr>Type = ''uint64'', Import = None\<rparr>,
      \<lparr>Type = ''float32'', Import = None\<rparr>,
      \<lparr>Type = ''float64'', Import = None\<rparr>,
      \<lparr>Type = ''Time'', Import = Some \<lparr>Path = ''time'', Alias = []\<rparr>\<rparr>]"

text \<open>
  The map literal that \<^verbatim>\<open>main\<close> ranges over, from file name to template name. Go
  leaves the order of a \<^verbatim>\<open>range\<close> over a map open, so the loop takes the order of one
  execution as an argument: a list of the entries of the map, each once. The loop is written
  for any catalogue; \<^verbatim>\<open>main\<close> runs it on \<^const>\<open>types\<close>. \<^verbatim>\<open>log.Fatalf\<close> ends the
  process at the first error, with the name of the file and the error in its message.
\<close>

definition file_templates :: "(string \<times> string) list" where
  "file_templates =
     [(''to_ptr.go'', ''scalar to pointer''),
      (''from_ptr.go'', ''scalar from pointer'')]"

datatype fatal = Fatal string gen_error

fun generate_all ::
  "Scalars \<Rightarrow> (string \<times> string) list \<Rightarrow> filesystem \<Rightarrow> fatal option \<times> filesystem" where
  "generate_all ts [] fs = (None, fs)"
| "generate_all ts ((filename, tmplName) # rest) fs =
     (case generateFile fs filename tmplName ts of
        (Some err, fs') \<Rightarrow> (Some (Fatal filename err), fs')
      | (None, fs') \<Rightarrow> generate_all ts rest fs')"

definition main :: "(string \<times> string) list \<Rightarrow> filesystem \<Rightarrow> fatal option \<times> filesystem" where
  "main order fs = generate_all types order fs"

section \<open>The generated functions\<close>

text \<open>
  The six function templates are Go code with the type \<^verbatim>\<open>{{ $.Symbol }}\<close> left open;
  their embedding is polymorphic in the type \<open>'v\<close> of the values, and takes the zero value
  of the type (what Go puts into a declared variable and into the cells of \<^verbatim>\<open>make\<close>)
  as the argument \<open>zero\<close>. \<open>T\<close> stands for \<^verbatim>\<open>{{ $.Name }}\<close>: \<open>T\<close>, \<open>TSlice\<close>,
  \<open>TMap\<close> are the functions of \<^verbatim>\<open>to_ptr.go\<close> and \<open>ToT\<close>, \<open>ToTSlice\<close>,
  \<open>ToTMap\<close> those of \<^verbatim>\<open>from_ptr.go\<close>.
\<close>

subsection \<open>Store, pointers, slices and maps\<close>

text \<open>
  The functions take the address of variables, so variables live in a store: the list of the
  values of the variables allocated so far, a variable's address being its position. A
  pointer is nil (\<open>None\<close>) or an address. Go has no pointer into nothing; the embedding
  makes a read through an address outside the store a failure of its own rather than an
  unspecified value.
\<close>

datatype panic = NilDereference | IndexOutOfRange | InvalidAddress

type_synonym addr = nat

type_synonym ptr = "addr option"

type_synonym 'v heap = "'v list"

definition new :: "'v heap \<Rightarrow> 'v \<Rightarrow> addr \<times> 'v heap" where
  "new h v = (length h, h @ [v])"

definition deref :: "'v heap \<Rightarrow> ptr \<Rightarrow> panic + 'v" where
  "deref h p =
     (case p of
        None \<Rightarrow> Inl NilDereference
      | Some a \<Rightarrow> if a < length h then Inr (h ! a) else Inl InvalidAddress)"

definition valid_ptr :: "'v heap \<Rightarrow> ptr \<Rightarrow> bool" where
  "valid_ptr h p = (case p of None \<Rightarrow> True | Some a \<Rightarrow> a < length h)"

text \<open>
  A slice is nil (\<open>None\<close>) or a list of elements; \<^verbatim>\<open>len\<close> of a nil slice is 0 and a
  \<^verbatim>\<open>range\<close> over it runs no iteration. The same holds for maps. A map is given by the
  list of its entries in the order in which a \<^verbatim>\<open>range\<close> of this execution visits
  them (Go leaves that order open); its keys are distinct, and \<^const>\<open>map_of\<close> is the
  mapping it stands for. An assignment \<^verbatim>\<open>ps[k] = x\<close> is \<^const>\<open>AList.update\<close>.
\<close>

type_synonym 'a slice = "'a list option"

type_synonym 'a gomap = "(string \<times> 'a) list option"

definition elems :: "'a list option \<Rightarrow> 'a list" where
  "elems vs = (case vs of None \<Rightarrow> [] | Some xs \<Rightarrow> xs)"

definition len :: "'a list option \<Rightarrow> nat" where
  "len vs = length (elems vs)"

definition set_index :: "'a list \<Rightarrow> nat \<Rightarrow> 'a \<Rightarrow> panic + 'a list" where
  "set_index ps i x = (if i < length ps then Inr (ps[i := x]) else Inl IndexOutOfRange)"

subsection \<open>to\_ptr.go\<close>

text \<open>
  \<^verbatim>\<open>func T(v T) *T { return &v }\<close>: the parameter is a new variable holding a copy
  of the argument, and its address is returned.
\<close>

definition T :: "'v heap \<Rightarrow> 'v \<Rightarrow> ptr \<times> 'v heap" where
  "T h v = (case new h v of (a, h') \<Rightarrow> (Some a, h'))"

text \<open>
  \<^verbatim>\<open>for i, v := range vs { ps[i] = &v }\<close>. The generator and the module it belongs to
  predate Go 1.22 (the file carries the old \<^verbatim>\<open>// +build\<close> constraint alone and calls
  \<^verbatim>\<open>strings.Title\<close>), where the variables of a \<^verbatim>\<open>range\<close> clause are declared
  once for the loop and re-used in each iteration. So \<open>v\<close> is one variable at one address
  \<open>a\<close>: each iteration assigns the element to it and stores \<open>a\<close> in \<open>ps[i]\<close>.
\<close>

fun TSlice_loop ::
  "addr \<Rightarrow> 'v list \<Rightarrow> nat \<Rightarrow> ptr list \<Rightarrow> 'v heap \<Rightarrow> panic + (ptr list \<times> 'v heap)" where
  "TSlice_loop a [] i ps h = Inr (ps, h)"
| "TSlice_loop a (x # xs) i ps h =
     (case set_index ps i (Some a) of
        Inl e \<Rightarrow> Inl e
      | Inr ps' \<Rightarrow> TSlice_loop a xs (Suc i) ps' (h[a := x]))"

definition TSlice :: "'v \<Rightarrow> 'v heap \<Rightarrow> 'v slice \<Rightarrow> panic + (ptr slice \<times> 'v heap)" where
  "TSlice zero h vs =
     (let ps = replicate (len vs) None in
      case new h zero of (a, h1) \<Rightarrow>
        (case TSlice_loop a (elems vs) 0 ps h1 of
           Inl e \<Rightarrow> Inl e
         | Inr (ps', h') \<Rightarrow> Inr (Some ps', h')))"

text \<open>
  \<^verbatim>\<open>for k, v := range vs { ps[k] = &v }\<close>, with the same single variable \<open>v\<close>.
  \<^verbatim>\<open>make(map[string]*T, len(vs))\<close> is an empty map that is not nil.
\<close>

fun TMap_loop ::
  "addr \<Rightarrow> (string \<times> 'v) list \<Rightarrow> (string \<times> ptr) list \<Rightarrow> 'v heap
     \<Rightarrow> (string \<times> ptr) list \<times> 'v heap" where
  "TMap_loop a [] ps h = (ps, h)"
| "TMap_loop a ((k, x) # kvs) ps h =
     TMap_loop a kvs (AList.update k (Some a) ps) (h[a := x])"

definition TMap :: "'v \<Rightarrow> 'v heap \<Rightarrow> 'v gomap \<Rightarrow> ptr gomap \<times> 'v heap" where
  "TMap zero h vs =
     (let ps = [] in
      case new h zero of (a, h1) \<Rightarrow>
        (case TMap_loop a (elems vs) ps h1 of
           (ps', h') \<Rightarrow> (Some ps', h')))"

subsection \<open>from\_ptr.go\<close>

text \<open>
  \<^verbatim>\<open>func ToT(p *T) (v T) { if p == nil { return v }; return *p }\<close>: the result
  variable \<open>v\<close> holds the zero value.
\<close>

definition ToT :: "'v \<Rightarrow> 'v heap \<Rightarrow> ptr \<Rightarrow> panic + 'v" where
  "ToT zero h p = (if p = None then Inr zero else deref h p)"

fun ToTSlice_loop ::
  "'v \<Rightarrow> 'v heap \<Rightarrow> ptr list \<Rightarrow> nat \<Rightarrow> 'v list \<Rightarrow> panic + 'v list" where
  "ToTSlice_loop zero h [] i ps = Inr ps"
| "ToTSlice_loop zero h (v # vs) i ps =
     (case ToT zero h v of
        Inl e \<Rightarrow> Inl e
      | Inr x \<Rightarrow>
          (case set_index ps i x of
             Inl e \<Rightarrow> Inl e
           | Inr ps' \<Rightarrow> ToTSlice_loop zero h vs (Suc i) ps'))"

definition ToTSlice :: "'v \<Rightarrow> 'v heap \<Rightarrow> ptr slice \<Rightarrow> panic + 'v slice" where
  "ToTSlice zero h vs =
     (let ps = replicate (len vs) zero in
      case ToTSlice_loop zero h (elems vs) 0 ps of
        Inl e \<Rightarrow> Inl e
      | Inr ps' \<Rightarrow> Inr (Some ps'))"

fun ToTMap_loop ::
  "'v \<Rightarrow> 'v heap \<Rightarrow> (string \<times> ptr) list \<Rightarrow> (string \<times> 'v) list
     \<Rightarrow> panic + (string \<times> 'v) list" where
  "ToTMap_loop zero h [] ps = Inr ps"
| "ToTMap_loop zero h ((k, v) # kvs) ps =
     (case ToT zero h v of
        Inl e \<Rightarrow> Inl e
      | Inr x \<Rightarrow> ToTMap_loop zero h kvs (AList.update k x ps))"

definition ToTMap :: "'v \<Rightarrow> 'v heap \<Rightarrow> ptr gomap \<Rightarrow> panic + 'v gomap" where
  "ToTMap zero h vs =
     (let ps = [] in
      case ToTMap_loop zero h (elems vs) ps of
        Inl e \<Rightarrow> Inl e
      | Inr ps' \<Rightarrow> Inr (Some ps'))"

section \<open>Properties of the generator\<close>

subsection \<open>Split and Package\<close>

lemma Split_not_Nil: "Split s sep \<noteq> []"
  by (induction s) (auto split: list.splits)

lemma length_Split: "length (Split s sep) = Suc (length (filter (\<lambda>c. c = sep) s))"
  by (induction s) (auto split: list.splits)

lemma Split_no_sep: "sep \<notin> set s \<Longrightarrow> Split s sep = [s]"
  by (induction s) auto

text \<open>The last part is what follows the last separator.\<close>

lemma last_Split: "last (Split s sep) = rev (takeWhile (\<lambda>c. c \<noteq> sep) (rev s))"
proof (induction s)
  case Nil
  then show ?case by simp
next
  case (Cons c s)
  show ?case
  proof (cases "sep \<in> set s")
    case False
    then have all: "\<forall>x\<in>set (rev s). x \<noteq> sep" by auto
    from all have "takeWhile (\<lambda>c. c \<noteq> sep) (rev s) = rev s"
      by (simp add: takeWhile_eq_all_conv)
    with False all show ?thesis
      by (simp add: Split_no_sep takeWhile_append)
  next
    case True
    from True have "2 \<le> length (Split s sep)"
      by (simp add: length_Split Suc_le_eq length_pos_if_in_set filter_empty_conv)
    then obtain p q qs where sp: "Split s sep = p # q # qs"
      by (cases "Split s sep"; cases "tl (Split s sep)") auto
    from True have tw:
      "takeWhile (\<lambda>c. c \<noteq> sep) (rev s @ [c]) = takeWhile (\<lambda>c. c \<noteq> sep) (rev s)"
      by (auto simp: takeWhile_append)
    from sp Cons.IH tw show ?thesis
      by (cases "c = sep") simp_all
  qed
qed

text \<open>
  Claim C8, as the code has it: the package name of an import is its alias when the alias
  is not empty, and otherwise the part of the path after its last slash (the whole path
  when it has none, the empty string when the path is empty). It is not empty exactly when
  the alias is not empty, or the path is not empty and does not end in a slash.
\<close>

theorem Package_segment:
  "Package i =
     (if Alias i \<noteq> [] then Alias i
      else rev (takeWhile (\<lambda>c. c \<noteq> CHR ''/'') (rev (Path i))))
   \<and> (Package i \<noteq> [] \<longleftrightarrow> Alias i \<noteq> [] \<or> (Path i \<noteq> [] \<and> last (Path i) \<noteq> CHR ''/''))"
proof -
  let ?parts = "Split (Path i) (CHR ''/'')"
  have idx: "?parts ! (length ?parts - Suc 0) = last ?parts"
    using Split_not_Nil [of "Path i" "CHR ''/''"] by (simp add: last_conv_nth)
  have seg: "Package i =
     (if Alias i \<noteq> [] then Alias i
      else rev (takeWhile (\<lambda>c. c \<noteq> CHR ''/'') (rev (Path i))))"
    by (simp add: Package_def Let_def idx last_Split)
  have ne: "rev (takeWhile (\<lambda>c. c \<noteq> CHR ''/'') (rev p)) \<noteq> [] \<longleftrightarrow> p \<noteq> [] \<and> last p \<noteq> CHR ''/''"
    for p
    by (cases p rule: rev_cases) auto
  show ?thesis
    unfolding seg using ne [of "Path i"] by auto
qed

text \<open>
  Claim C8, the theorem at three imports: a path of several segments, an alias, and a path
  that ends in a slash.
\<close>

theorem Package_segment_witness:
  "Package \<lparr>Path = ''github.com/aws/smithy-go/time'', Alias = []\<rparr> = ''time''
   \<and> Package \<lparr>Path = ''time'', Alias = ''t''\<rparr> = ''t''
   \<and> Package \<lparr>Path = ''time/'', Alias = []\<rparr> = []"
  using Package_segment [of "\<lparr>Path = ''github.com/aws/smithy-go/time'', Alias = []\<rparr>"]
    Package_segment [of "\<lparr>Path = ''time'', Alias = ''t''\<rparr>"]
    Package_segment [of "\<lparr>Path = ''time/'', Alias = []\<rparr>"]
  by simp

text \<open>
  Claim C8 as stated fails: a scalar that declares an import with neither alias nor path
  has the empty package name, by the last \<^verbatim>\<open>return ""\<close> of \<^verbatim>\<open>Package\<close>, and its
  symbol starts with the dot.
\<close>

theorem Package_empty_counterexample:
  "Symbol \<lparr>Type = ''Time'', Import = Some \<lparr>Path = [], Alias = []\<rparr>\<rparr> = ''.Time''
   \<and> Package \<lparr>Path = [], Alias = []\<rparr> = []"
  by (simp add: Symbol_def Package_def)

subsection \<open>Name\<close>

lemma isWordChar_not_sep: "isWordChar c \<Longrightarrow> \<not> isSeparator c"
  by (auto simp: isWordChar_def isSeparator_def)

lemma isSeparator_space: "isSeparator (CHR '' '')"
  by code_simp

lemma Title_from_word:
  "\<not> isSeparator prev \<Longrightarrow> \<forall>c\<in>set s. \<not> isSeparator c \<Longrightarrow> Title_from prev s = s"
  by (induction s arbitrary: prev) auto

text \<open>The title-cased string, position by position.\<close>

lemma length_Title_from: "length (Title_from prev s) = length s"
  by (induction s arbitrary: prev) simp_all

lemma Title_from_nth:
  "i < length s \<Longrightarrow>
   Title_from prev s ! i =
     (if isSeparator (if i = 0 then prev else s ! (i - 1)) then ToTitle (s ! i) else s ! i)"
proof (induction s arbitrary: prev i)
  case Nil
  then show ?case by simp
next
  case (Cons r s)
  show ?case
  proof (cases i)
    case 0
    then show ?thesis by simp
  next
    case (Suc j)
    with Cons.prems have "j < length s" by simp
    from Cons.IH [OF this, of r] Suc show ?thesis
      by (cases j) simp_all
  qed
qed

text \<open>
  Claim C9, as the code has it, for an ASCII type name: the exported name has the length of
  the type name; its character at a position is the character of the type name there,
  mapped to upper case (a lower-case letter to its upper-case letter, any other character
  to itself) when the position is the first or follows a separator (a character that is no
  letter, digit or underscore), and unchanged otherwise. So for a type name that
  is one word (letters, digits and underscores only, in any mix of cases) the exported name
  is the type name with its first character mapped to upper case and every other character
  unchanged.
\<close>

theorem Name_title_case:
  assumes "\<forall>c\<in>set (Type t). rune c \<le> 0x7F"
  shows "length (Name t) = length (Type t)
   \<and> (\<forall>i<length (Type t).
         Name t ! i =
           (if i = 0 \<or> isSeparator (Type t ! (i - 1)) then ToTitle (Type t ! i)
            else Type t ! i))
   \<and> ((\<forall>c\<in>set (Type t). isWordChar c) \<longrightarrow>
         Name t = (case Type t of [] \<Rightarrow> [] | c # cs \<Rightarrow> ToTitle c # cs))"
proof -
  have len: "length (Name t) = length (Type t)"
    by (simp add: Name_def Title_def length_Title_from)
  have pos: "\<forall>i<length (Type t).
         Name t ! i =
           (if i = 0 \<or> isSeparator (Type t ! (i - 1)) then ToTitle (Type t ! i)
            else Type t ! i)"
    by (simp add: Name_def Title_def Title_from_nth isSeparator_space)
  have word: "Name t = (case Type t of [] \<Rightarrow> [] | c # cs \<Rightarrow> ToTitle c # cs)"
    if w: "\<forall>c\<in>set (Type t). isWordChar c"
  proof (cases "Type t")
    case Nil
    then show ?thesis by (simp add: Name_def Title_def)
  next
    case (Cons c cs)
    with w have "\<not> isSeparator c" and "\<forall>x\<in>set cs. \<not> isSeparator x"
      by (auto dest: isWordChar_not_sep)
    then have "Title_from c cs = cs"
      by (rule Title_from_word)
    with Cons show ?thesis
      by (simp add: Name_def Title_def isSeparator_space)
  qed
  from len pos word show ?thesis
    by blast
qed

text \<open>
  Claim C9, the theorem at a type name of two words and at a mixed-case type name of one
  word.
\<close>

theorem Name_title_case_witness:
  "list_all (\<lambda>c. rune c \<le> 0x7F) (Type \<lparr>Type = ''big.int'', Import = None\<rparr>)
   \<and> length (Name \<lparr>Type = ''big.int'', Import = None\<rparr>) = 7
   \<and> Name \<lparr>Type = ''big.int'', Import = None\<rparr> ! 0 = CHR ''B''
   \<and> Name \<lparr>Type = ''big.int'', Import = None\<rparr> ! 1 = CHR ''i''
   \<and> Name \<lparr>Type = ''big.int'', Import = None\<rparr> ! 4 = CHR ''I''
   \<and> list_all isWordChar (Type \<lparr>Type = ''uInt8_t'', Import = None\<rparr>)
   \<and> Name \<lparr>Type = ''uInt8_t'', Import = None\<rparr> = ''UInt8_t''"
proof -
  let ?m = "\<lparr>Type = ''big.int'', Import = None\<rparr>"
  let ?w = "\<lparr>Type = ''uInt8_t'', Import = None\<rparr>"
  have am: "list_all (\<lambda>c. rune c \<le> 0x7F) (Type ?m)"
    by code_simp
  then have hm: "\<forall>c\<in>set (Type ?m). rune c \<le> 0x7F"
    by (simp only: list_all_iff)
  have "list_all (\<lambda>c. rune c \<le> 0x7F) (Type ?w)"
    by code_simp
  then have hw: "\<forall>c\<in>set (Type ?w). rune c \<le> 0x7F"
    by (simp only: list_all_iff)
  have ww: "list_all isWordChar (Type ?w)"
    by code_simp
  then have wq: "\<forall>c\<in>set (Type ?w). isWordChar c"
    by (simp only: list_all_iff)
  have sep: "isSeparator (CHR ''.'')" "\<not> isSeparator (CHR ''b'')"
    by code_simp+
  have up: "ToTitle (CHR ''b'') = CHR ''B''" "ToTitle (CHR ''i'') = CHR ''I''"
      "ToTitle (CHR ''u'') = CHR ''U''"
    by code_simp+
  note m = Name_title_case [OF hm]
  from m have len: "length (Name ?m) = 7"
    by simp
  from m have pos: "\<forall>i<7. Name ?m ! i =
      (if i = 0 \<or> isSeparator (''big.int'' ! (i - 1)) then ToTitle (''big.int'' ! i)
       else ''big.int'' ! i)"
    by simp
  from pos have p0: "Name ?m ! 0 = CHR ''B''"
    by (simp add: up)
  from pos have "Name ?m ! 1 = (if isSeparator (''big.int'' ! (1 - 1)) then ToTitle (''big.int'' ! 1) else ''big.int'' ! 1)"
    by simp
  then have p1: "Name ?m ! 1 = CHR ''i''"
    by (simp add: sep)
  from pos have "Name ?m ! 4 = (if isSeparator (''big.int'' ! (4 - 1)) then ToTitle (''big.int'' ! 4) else ''big.int'' ! 4)"
    by simp
  then have p4: "Name ?m ! 4 = CHR ''I''"
    by (simp add: sep up)
  from Name_title_case [OF hw] wq have n: "Name ?w = ''UInt8_t''"
    by (simp add: up)
  from am len p0 p1 p4 ww n show ?thesis
    by blast
qed

text \<open>
  Claim C9 as stated fails on a type name of more than one word: \<^verbatim>\<open>strings.Title\<close>
  maps the first letter of every word, so in \<^verbatim>\<open>[]byte\<close> the third character changes
  and not the first.
\<close>

theorem Name_multi_word_counterexample:
  "Name \<lparr>Type = ''[]byte'', Import = None\<rparr> = ''[]Byte''
   \<and> Name \<lparr>Type = ''[]byte'', Import = None\<rparr> \<noteq> ''[]byte''"
  by code_simp

subsection \<open>Imports and the import block\<close>

lemma Imports_loop_append: "Imports_loop ts acc = acc @ List.map_filter Import ts"
  by (induction ts arbitrary: acc) (auto simp: List.map_filter_simps split: option.splits)

text \<open>
  Claim C3, as the code has it: the imports of a catalogue are the imports of its entries
  that have one, in catalogue order, one for each such entry; so a path that \<open>N\<close> entries
  refer to is listed \<open>N\<close> times, and the import block of the header has one line for each.
\<close>

theorem Imports_one_per_entry:
  "Imports ts = List.map_filter Import ts
   \<and> count_list (map Path (Imports ts)) p
       = length (filter (\<lambda>t. map_option Path (Import t) = Some p) ts)
   \<and> header ts =
       nl @ tab @ ''// Code generated by smithy-go/ptr/generate.go DO NOT EDIT.''
       @ nl @ tab @ ''package ptr'' @ nl @ nl @ tab @ ''import (''
       @ concat (map (\<lambda>i. nl @ tab @ tab @ tab @ dq @ Path i @ dq) (List.map_filter Import ts))
       @ nl @ tab @ '')''"
proof -
  have imp: "Imports ts = List.map_filter Import ts"
    by (simp add: Imports_def Imports_loop_append)
  have cnt: "count_list (map Path (List.map_filter Import ts)) p
       = length (filter (\<lambda>t. map_option Path (Import t) = Some p) ts)"
    by (induction ts) (auto simp: List.map_filter_simps split: option.splits)
  have line: "map import_line = map (\<lambda>i. nl @ tab @ tab @ tab @ dq @ Path i @ dq)"
    by (simp add: import_line_def [abs_def])
  show ?thesis
    by (simp add: imp cnt header_def line)
qed

text \<open>
  Claim C3, the theorem at the catalogue of \<^verbatim>\<open>main\<close>: its one import, of the last
  entry, is listed once.
\<close>

theorem Imports_one_per_entry_witness:
  "Imports types = [\<lparr>Path = ''time'', Alias = []\<rparr>]
   \<and> count_list (map Path (Imports types)) ''time'' = 1"
  using Imports_one_per_entry [of types "''time''"]
  by (simp add: types_def List.map_filter_simps)

text \<open>
  Claim C3 as stated fails: two entries from the same module give two lines for it in the
  import block.
\<close>

theorem Imports_duplicate_counterexample:
  "map Path (Imports [\<lparr>Type = ''Time'', Import = Some \<lparr>Path = ''time'', Alias = []\<rparr>\<rparr>,
                      \<lparr>Type = ''Duration'', Import = Some \<lparr>Path = ''time'', Alias = []\<rparr>\<rparr>])
     = [''time'', ''time'']
   \<and> header [\<lparr>Type = ''Time'', Import = Some \<lparr>Path = ''time'', Alias = []\<rparr>\<rparr>,
              \<lparr>Type = ''Duration'', Import = Some \<lparr>Path = ''time'', Alias = []\<rparr>\<rparr>]
     = nl @ tab @ ''// Code generated by smithy-go/ptr/generate.go DO NOT EDIT.''
       @ nl @ tab @ ''package ptr'' @ nl @ nl @ tab @ ''import (''
       @ nl @ tab @ tab @ tab @ dq @ ''time'' @ dq
       @ nl @ tab @ tab @ tab @ dq @ ''time'' @ dq
       @ nl @ tab @ '')''"
  by (simp add: Imports_def header_def import_line_def)

subsection \<open>generateFile and the two documents\<close>

lemma generateFile_documents:
  "\<not> denied fs filename \<Longrightarrow>
   generateFile fs filename ''scalar to pointer'' ts
     = (None, fs\<lparr>files := (files fs)(filename \<mapsto> scalar_to_pointer ts)\<rparr>)"
  "\<not> denied fs filename \<Longrightarrow>
   generateFile fs filename ''scalar from pointer'' ts
     = (None, fs\<lparr>files := (files fs)(filename \<mapsto> scalar_from_pointer ts)\<rparr>)"
  by (simp_all add: generateFile_def os_Create_def ExecuteTemplate_def Write_def)





subsection \<open>The order of the files\<close>

text \<open>The map literal of \<^verbatim>\<open>main\<close> has two entries, so a range over it has two orders.\<close>

lemma two_orders:
  assumes "distinct order" and "set order = set file_templates"
  shows "order = file_templates \<or> order = rev file_templates"
proof -
  have "distinct file_templates"
    by (simp add: file_templates_def)
  with assms have "length order = 2"
    using distinct_card [of order] distinct_card [of file_templates]
    by (simp add: file_templates_def)
  then obtain x y where "order = [x, y]"
    by (cases order; cases "tl order") auto
  with assms show ?thesis
    by (auto simp: file_templates_def doubleton_eq_iff)
qed

lemma generate_all_forward:
  assumes "\<not> denied fs ''to_ptr.go''" and "\<not> denied fs ''from_ptr.go''"
  shows "generate_all ts file_templates fs
     = (None, fs\<lparr>files := (files fs)(''to_ptr.go'' \<mapsto> scalar_to_pointer ts,
                                       ''from_ptr.go'' \<mapsto> scalar_from_pointer ts)\<rparr>)"
  using assms by (simp add: file_templates_def generateFile_documents)

lemma generate_all_backward:
  assumes "\<not> denied fs ''to_ptr.go''" and "\<not> denied fs ''from_ptr.go''"
  shows "generate_all ts (rev file_templates) fs
     = (None, fs\<lparr>files := (files fs)(''to_ptr.go'' \<mapsto> scalar_to_pointer ts,
                                       ''from_ptr.go'' \<mapsto> scalar_from_pointer ts)\<rparr>)"
proof -
  have "(files fs)(''from_ptr.go'' \<mapsto> scalar_from_pointer ts,
                   ''to_ptr.go'' \<mapsto> scalar_to_pointer ts)
      = (files fs)(''to_ptr.go'' \<mapsto> scalar_to_pointer ts,
                   ''from_ptr.go'' \<mapsto> scalar_from_pointer ts)"
    by (rule fun_upd_twist) simp
  with assms show ?thesis
    by (simp add: file_templates_def generateFile_documents)
qed

lemma generate_all_any_order:
  assumes "distinct order" and "set order = set file_templates"
    and "\<not> denied fs ''to_ptr.go''" and "\<not> denied fs ''from_ptr.go''"
  shows "generate_all ts order fs
     = (None, fs\<lparr>files := (files fs)(''to_ptr.go'' \<mapsto> scalar_to_pointer ts,
                                       ''from_ptr.go'' \<mapsto> scalar_from_pointer ts)\<rparr>)"
  using two_orders [OF assms(1,2)] generate_all_forward [OF assms(3,4)]
    generate_all_backward [OF assms(3,4)]
  by auto

text \<open>
  Claim C6: the documents do not depend on the one unordered iteration of the generator,
  the range over the map of file names. For every catalogue and every two orders of that
  range, two runs from the same file system end in the same file system, in which each of
  the two files holds the rendering of the catalogue, a function of the catalogue alone;
  and a second run after the first changes nothing.
\<close>

theorem generate_all_deterministic:
  assumes "distinct o1" and "set o1 = set file_templates"
    and "distinct o2" and "set o2 = set file_templates"
    and "\<not> denied fs ''to_ptr.go''" and "\<not> denied fs ''from_ptr.go''"
  shows "generate_all ts o1 fs = generate_all ts o2 fs
     \<and> generate_all ts o1 fs
         = (None, fs\<lparr>files := (files fs)(''to_ptr.go'' \<mapsto> scalar_to_pointer ts,
                                           ''from_ptr.go'' \<mapsto> scalar_from_pointer ts)\<rparr>)
     \<and> generate_all ts o2 (snd (generate_all ts o1 fs)) = generate_all ts o1 fs"
proof -
  let ?fs' = "fs\<lparr>files := (files fs)(''to_ptr.go'' \<mapsto> scalar_to_pointer ts,
                                       ''from_ptr.go'' \<mapsto> scalar_from_pointer ts)\<rparr>"
  have r1: "generate_all ts o1 fs = (None, ?fs')"
    using assms by (simp add: generate_all_any_order)
  have r2: "generate_all ts o2 fs = (None, ?fs')"
    using assms by (simp add: generate_all_any_order)
  have d: "\<not> denied ?fs' ''to_ptr.go''" "\<not> denied ?fs' ''from_ptr.go''"
    using assms by simp_all
  have r3: "generate_all ts o2 ?fs' = (None, ?fs')"
    using generate_all_any_order [OF assms(3,4) d, of ts] by simp
  show ?thesis
    by (simp add: r1 r2 r3)
qed

text \<open>
  Claim C6, the theorem at \<^verbatim>\<open>main\<close>: its two orders, from the empty file system.
\<close>

theorem generate_all_deterministic_witness:
  "distinct file_templates \<and> distinct (rev file_templates)
   \<and> set (rev file_templates) = set file_templates
   \<and> \<not> denied \<lparr>files = Map.empty, denied = (\<lambda>_. False)\<rparr> ''to_ptr.go''
   \<and> \<not> denied \<lparr>files = Map.empty, denied = (\<lambda>_. False)\<rparr> ''from_ptr.go''
   \<and> main file_templates \<lparr>files = Map.empty, denied = (\<lambda>_. False)\<rparr>
       = main (rev file_templates) \<lparr>files = Map.empty, denied = (\<lambda>_. False)\<rparr>
   \<and> fst (main file_templates \<lparr>files = Map.empty, denied = (\<lambda>_. False)\<rparr>) = None"
proof -
  have d: "distinct file_templates"
    by (simp add: file_templates_def)
  have dr: "distinct (rev file_templates)"
    using d by simp
  have s: "set (rev file_templates) = set file_templates"
    by simp
  have c: "\<not> denied \<lparr>files = Map.empty, denied = (\<lambda>_. False)\<rparr> ''to_ptr.go''"
      "\<not> denied \<lparr>files = Map.empty, denied = (\<lambda>_. False)\<rparr> ''from_ptr.go''"
    by simp_all
  note run = generate_all_deterministic [OF d refl dr s c, of types]
  from run have same:
    "main file_templates \<lparr>files = Map.empty, denied = (\<lambda>_. False)\<rparr>
       = main (rev file_templates) \<lparr>files = Map.empty, denied = (\<lambda>_. False)\<rparr>"
    unfolding main_def by (rule conjunct1)
  from run have
    "main file_templates \<lparr>files = Map.empty, denied = (\<lambda>_. False)\<rparr>
       = (None, \<lparr>files = Map.empty, denied = (\<lambda>_. False)\<rparr>
           \<lparr>files := (files \<lparr>files = Map.empty, denied = (\<lambda>_. False)\<rparr>)
              (''to_ptr.go'' \<mapsto> scalar_to_pointer types,
               ''from_ptr.go'' \<mapsto> scalar_from_pointer types)\<rparr>)"
    unfolding main_def by (rule conjunct2 [THEN conjunct1])
  then have ok: "fst (main file_templates \<lparr>files = Map.empty, denied = (\<lambda>_. False)\<rparr>) = None"
    by (simp only: fst_conv)
  from d dr s c same ok show ?thesis
    by blast
qed

section \<open>Properties of the generated functions\<close>

subsection \<open>One value\<close>

lemma ToT_valid:
  "valid_ptr h p \<Longrightarrow> ToT zero h p = Inr (case p of None \<Rightarrow> zero | Some a \<Rightarrow> h ! a)"
  by (cases p) (simp_all add: ToT_def deref_def valid_ptr_def)

text \<open>
  Claim C4: for every value \<open>v\<close>, of whatever type, and every store, \<open>ToT\<close> applied to the
  pointer that \<open>T\<close> returns for \<open>v\<close>, in the store that \<open>T\<close> leaves, returns \<open>v\<close>.
\<close>

theorem ToT_T_roundtrip:
  "ToT zero (snd (T h v)) (fst (T h v)) = Inr v"
  by (simp add: T_def new_def ToT_def deref_def)

text \<open>Claim C4, the theorem at a string, in a store that already holds a variable.\<close>

theorem ToT_T_roundtrip_witness:
  "T [''x''] ''abc'' = (Some 1, [''x'', ''abc''])
   \<and> ToT [] (snd (T [''x''] ''abc'')) (fst (T [''x''] ''abc'')) = Inr ''abc''"
  using ToT_T_roundtrip [of "[]" "[''x'']" "''abc''"]
  by (simp add: T_def new_def)

text \<open>
  Claim C5: \<open>ToT\<close> returns the zero value for the nil pointer and the value of the variable
  for a pointer to a variable of the store, and does not panic on either.
\<close>

theorem ToT_total:
  "ToT zero h None = Inr zero
   \<and> (a < length h \<longrightarrow> ToT zero h (Some a) = Inr (h ! a))
   \<and> (valid_ptr h p \<longrightarrow> (\<exists>v. ToT zero h p = Inr v))"
  by (cases p) (simp_all add: ToT_def deref_def valid_ptr_def)

text \<open>Claim C5, the theorem at a store of two integers and a pointer to the second.\<close>

theorem ToT_total_witness:
  "ToT (0::int) [5, 6] None = Inr 0
   \<and> (1::nat) < length [5, 6 :: int] \<and> ToT (0::int) [5, 6] (Some 1) = Inr 6
   \<and> valid_ptr [5, 6 :: int] (Some 1) \<and> (\<exists>v. ToT (0::int) [5, 6] (Some 1) = Inr v)"
  using ToT_total [of "0::int" "[5, 6]" 1 "Some 1"]
  by (simp add: valid_ptr_def)

subsection \<open>Slices\<close>

text \<open>
  The loop of \<open>TSlice\<close> fills the cells from \<open>i\<close> on with the one address \<open>a\<close>, and leaves
  the last element in the variable at \<open>a\<close>.
\<close>

lemma TSlice_loop_shared:
  "i + length xs \<le> length ps \<Longrightarrow> a < length h \<Longrightarrow>
   TSlice_loop a xs i ps h =
     Inr (take i ps @ replicate (length xs) (Some a) @ drop (i + length xs) ps,
          h[a := (if xs = [] then h ! a else last xs)])"
proof (induction xs arbitrary: i ps h)
  case Nil
  then show ?case by simp
next
  case (Cons x xs)
  from Cons.prems have i: "i < length ps" by simp
  have step: "take (Suc i) (ps[i := Some a]) = take i ps @ [Some a]"
    using i by (simp add: take_Suc_conv_app_nth)
  from Cons.prems have "Suc i + length xs \<le> length (ps[i := Some a])"
    and "a < length (h[a := x])"
    by simp_all
  from Cons.IH [OF this] i step Cons.prems(2) show ?case
    by (simp add: set_index_def)
qed

text \<open>
  So \<open>TSlice\<close> never panics and returns as many pointers as it was given values; but they
  are all the address of the loop variable, which holds the last value.
\<close>

lemma TSlice_shared:
  "TSlice zero h (Some xs) =
     Inr (Some (replicate (length xs) (Some (length h))),
          h @ [if xs = [] then zero else last xs])"
proof -
  have "TSlice_loop (length h) xs 0 (replicate (length xs) None) (h @ [zero]) =
     Inr (replicate (length xs) (Some (length h)),
          (h @ [zero])[length h := (if xs = [] then (h @ [zero]) ! length h else last xs)])"
    using TSlice_loop_shared [of 0 xs "replicate (length xs) None" "length h" "h @ [zero]"]
    by simp
  then show ?thesis
    by (simp add: TSlice_def new_def len_def elems_def)
qed

lemma ToTSlice_loop_map:
  "i + length vs \<le> length ps \<Longrightarrow> \<forall>p\<in>set vs. valid_ptr h p \<Longrightarrow>
   ToTSlice_loop zero h vs i ps =
     Inr (take i ps @ map (\<lambda>p. case p of None \<Rightarrow> zero | Some a \<Rightarrow> h ! a) vs
          @ drop (i + length vs) ps)"
proof (induction vs arbitrary: i ps)
  case Nil
  then show ?case by simp
next
  case (Cons v vs)
  let ?x = "case v of None \<Rightarrow> zero | Some a \<Rightarrow> h ! a"
  from Cons.prems have i: "i < length ps" and v: "valid_ptr h v"
    and vs: "\<forall>p\<in>set vs. valid_ptr h p"
    by simp_all
  have step: "take (Suc i) (ps[i := ?x]) = take i ps @ [?x]"
    using i by (simp add: take_Suc_conv_app_nth)
  from Cons.prems have "Suc i + length vs \<le> length (ps[i := ?x])"
    by simp
  from Cons.IH [OF this vs] i step show ?case
    by (simp add: set_index_def ToT_valid [OF v])
qed

text \<open>
  \<open>ToTSlice\<close> is right: element \<open>i\<close> of its result is \<open>ToT\<close> of element \<open>i\<close> of its
  argument.
\<close>

lemma ToTSlice_map:
  "\<forall>p\<in>set vs. valid_ptr h p \<Longrightarrow>
   ToTSlice zero h (Some vs)
     = Inr (Some (map (\<lambda>p. case p of None \<Rightarrow> zero | Some a \<Rightarrow> h ! a) vs))"
  using ToTSlice_loop_map [of 0 vs "replicate (length vs) zero" h zero]
  by (simp add: ToTSlice_def len_def elems_def)

text \<open>
  Claim C1 fails on the code: for the strings \<^verbatim>\<open>"a"\<close> and \<^verbatim>\<open>"b"\<close>, in the empty
  store, \<open>TSlice\<close> returns the address 0 twice, and the variable at address 0 holds
  \<^verbatim>\<open>"b"\<close>; so entry 0 of the result does not refer to a copy of element 0 of the
  argument.
\<close>

theorem TSlice_same_reference:
  "TSlice [] [] (Some [''a'', ''b'']) = Inr (Some [Some 0, Some 0], [''b''])
   \<and> ToT [] [''b''] (Some 0) = Inr ''b''"
  by (simp add: TSlice_def new_def len_def elems_def set_index_def ToT_def deref_def)

subsection \<open>Maps\<close>

lemma TMap_loop_shared:
  "a < length h \<Longrightarrow>
   TMap_loop a kvs ps h = (ps', h') \<Longrightarrow>
   map_of ps' = (\<lambda>k. if k \<in> fst ` set kvs then Some (Some a) else map_of ps k)
   \<and> h' = h[a := (if kvs = [] then h ! a else snd (last kvs))]"
proof (induction kvs arbitrary: ps h)
  case Nil
  then show ?case by auto
next
  case (Cons kv kvs)
  obtain k x where kv: "kv = (k, x)" by (cases kv)
  from Cons.prems kv have run:
    "TMap_loop a kvs (AList.update k (Some a) ps) (h[a := x]) = (ps', h')"
    by simp
  from Cons.prems have "a < length (h[a := x])" by simp
  from Cons.IH [OF this run] Cons.prems(1) kv show ?case
    by (auto simp: update_conv fun_eq_iff)
qed

text \<open>
  \<open>TMap\<close> returns a map with the keys of its argument; every key is mapped to the address
  of the loop variable, which holds the value of the entry visited last.
\<close>

lemma TMap_shared:
  assumes "TMap zero h (Some kvs) = (r, h')"
  shows "\<exists>ps. r = Some ps
     \<and> map_of ps = (\<lambda>k. if k \<in> fst ` set kvs then Some (Some (length h)) else None)
     \<and> h' = h @ [if kvs = [] then zero else snd (last kvs)]"
proof -
  obtain ps where run: "TMap_loop (length h) kvs [] (h @ [zero]) = (ps, h')"
    and r: "r = Some ps"
    using assms by (auto simp: TMap_def new_def elems_def split: prod.splits)
  from TMap_loop_shared [OF _ run] r show ?thesis
    by (auto simp: fun_eq_iff)
qed

lemma ToTMap_loop_map:
  "\<forall>p\<in>snd ` set kvs. valid_ptr h p \<Longrightarrow>
   \<exists>ps'. ToTMap_loop zero h kvs ps = Inr ps'
     \<and> map_of ps' = (\<lambda>k. case map_of (rev kvs) k of
                             None \<Rightarrow> map_of ps k
                           | Some p \<Rightarrow> Some (case p of None \<Rightarrow> zero | Some a \<Rightarrow> h ! a))"
proof (induction kvs arbitrary: ps)
  case Nil
  then show ?case by simp
next
  case (Cons kv kvs)
  obtain k v where kv: "kv = (k, v)" by (cases kv)
  let ?x = "case v of None \<Rightarrow> zero | Some a \<Rightarrow> h ! a"
  from Cons.prems kv have v: "valid_ptr h v" and rest: "\<forall>p\<in>snd ` set kvs. valid_ptr h p"
    by auto
  from Cons.IH [OF rest, of "AList.update k ?x ps"] obtain ps' where
    run: "ToTMap_loop zero h kvs (AList.update k ?x ps) = Inr ps'" and
    m: "map_of ps' = (\<lambda>k'. case map_of (rev kvs) k' of
                             None \<Rightarrow> map_of (AList.update k ?x ps) k'
                           | Some p \<Rightarrow> Some (case p of None \<Rightarrow> zero | Some a \<Rightarrow> h ! a))"
    by blast
  from run kv have "ToTMap_loop zero h (kv # kvs) ps = Inr ps'"
    by (simp add: ToT_valid [OF v])
  moreover from m kv have "map_of ps' = (\<lambda>k'. case map_of (rev (kv # kvs)) k' of
                             None \<Rightarrow> map_of ps k'
                           | Some p \<Rightarrow> Some (case p of None \<Rightarrow> zero | Some a \<Rightarrow> h ! a))"
    by (auto simp: fun_eq_iff update_conv map_add_def split: option.splits)
  ultimately show ?case by blast
qed

lemma map_of_rev_distinct: "distinct (map fst xs) \<Longrightarrow> map_of (rev xs) = map_of xs"
proof (induction xs)
  case Nil
  then show ?case by simp
next
  case (Cons kv xs)
  obtain k v where kv: "kv = (k, v)" by (cases kv)
  from Cons.prems kv have none: "map_of xs k = None"
    by (simp add: map_of_eq_None_iff)
  from Cons.prems have "map_of (rev xs) = map_of xs"
    by (simp add: Cons.IH)
  with none kv show ?case
    by (auto simp: fun_eq_iff map_add_def split: option.splits)
qed

text \<open>
  \<open>ToTMap\<close> is right: its result has the keys of its argument, and each key is mapped to
  \<open>ToT\<close> of the pointer the argument maps it to.
\<close>

lemma ToTMap_map:
  assumes "distinct (map fst kvs)" and "\<forall>p\<in>snd ` set kvs. valid_ptr h p"
  shows "\<exists>ps'. ToTMap zero h (Some kvs) = Inr (Some ps')
     \<and> map_of ps' = (\<lambda>k. map_option (\<lambda>p. case p of None \<Rightarrow> zero | Some a \<Rightarrow> h ! a)
                               (map_of kvs k))"
proof -
  from ToTMap_loop_map [OF assms(2), of zero "[]"] obtain ps' where
    run: "ToTMap_loop zero h kvs [] = Inr ps'" and
    m: "map_of ps' = (\<lambda>k. case map_of (rev kvs) k of
                             None \<Rightarrow> map_of [] k
                           | Some p \<Rightarrow> Some (case p of None \<Rightarrow> zero | Some a \<Rightarrow> h ! a))"
    by blast
  from assms(1) have "map_of (rev kvs) = map_of kvs"
    by (rule map_of_rev_distinct)
  with m have "map_of ps' = (\<lambda>k. map_option (\<lambda>p. case p of None \<Rightarrow> zero | Some a \<Rightarrow> h ! a)
                               (map_of kvs k))"
    by (auto simp: fun_eq_iff split: option.splits)
  with run show ?thesis
    by (simp add: ToTMap_def elems_def)
qed

text \<open>
  Claim C2 fails on the code: for the map from \<^verbatim>\<open>"a"\<close> to 1 and \<^verbatim>\<open>"b"\<close> to 2, in
  the empty store, \<open>TMap\<close> maps both keys to the address 0; the variable there holds 2 when
  the range visits \<^verbatim>\<open>"b"\<close> last and 1 when it visits \<^verbatim>\<open>"a"\<close> last. In either
  order one key refers to the value of the other.
\<close>

theorem TMap_same_reference:
  "TMap (0::int) [] (Some [(''a'', 1), (''b'', 2)])
     = (Some [(''a'', Some 0), (''b'', Some 0)], [2])
   \<and> TMap (0::int) [] (Some [(''b'', 2), (''a'', 1)])
     = (Some [(''b'', Some 0), (''a'', Some 0)], [1])"
  by (simp add: TMap_def new_def elems_def)

subsection \<open>Nil containers\<close>

text \<open>
  Claim C10: on a nil slice or a nil map, each of the four container functions returns a
  container that is not nil and has no element, without a panic.
\<close>

theorem nil_containers:
  "TSlice zero h None = Inr (Some [], h @ [zero])
   \<and> TMap zero h None = (Some [], h @ [zero])
   \<and> ToTSlice zero h None = Inr (Some [])
   \<and> ToTMap zero h None = Inr (Some [])"
  by (simp add: TSlice_def TMap_def ToTSlice_def ToTMap_def new_def len_def elems_def)

text \<open>Claim C10, the theorem at the integers and the empty store.\<close>

theorem nil_containers_witness:
  "fst (projr (TSlice (0::int) [] None)) = Some []
   \<and> len (fst (projr (TSlice (0::int) [] None))) = 0
   \<and> fst (TMap (0::int) [] None) = Some []
   \<and> ToTSlice (0::int) [] None = Inr (Some [])
   \<and> ToTMap (0::int) [] None = Inr (Some [])"
  using nil_containers [of "0::int" "[]"]
  by (simp add: len_def elems_def)

end
